theory Spec2Isabelle
  imports Complex_Main
begin

section \<open>JavaScript numbers\<close>

text \<open>
  A JavaScript number is modelled as a real number or one of the three special values
  \<^verbatim>\<open>NaN\<close>, \<^verbatim>\<open>-Infinity\<close>, \<^verbatim>\<open>Infinity\<close>. Finite arithmetic is exact:
  the rounding of IEEE doubles, overflow to infinity and the sign of zero are not
  modelled. The operations below are the ones the chart code applies to numbers.
\<close>

datatype jsnum = NaN | NInf | Fin real | PInf

fun isNaN :: "jsnum \<Rightarrow> bool" where
  "isNaN NaN = True"
| "isNaN _ = False"

fun jneg :: "jsnum \<Rightarrow> jsnum" where
  "jneg NaN = NaN"
| "jneg NInf = PInf"
| "jneg (Fin a) = Fin (- a)"
| "jneg PInf = NInf"

fun Math_abs :: "jsnum \<Rightarrow> jsnum" where
  "Math_abs NaN = NaN"
| "Math_abs NInf = PInf"
| "Math_abs (Fin a) = Fin \<bar>a\<bar>"
| "Math_abs PInf = PInf"

fun jsign :: "jsnum \<Rightarrow> int" where
  "jsign NaN = 0"
| "jsign NInf = -1"
| "jsign (Fin a) = (if a < 0 then -1 else if a = 0 then 0 else 1)"
| "jsign PInf = 1"

fun jinf :: "int \<Rightarrow> jsnum" where
  "jinf s = (if s = 0 then NaN else if s < 0 then NInf else PInf)"

text \<open>\<^verbatim>\<open>x * y\<close>: an infinity times zero is \<^verbatim>\<open>NaN\<close>.\<close>

fun jmul :: "jsnum \<Rightarrow> jsnum \<Rightarrow> jsnum" where
  "jmul NaN _ = NaN"
| "jmul _ NaN = NaN"
| "jmul (Fin a) (Fin b) = Fin (a * b)"
| "jmul x y = jinf (jsign x * jsign y)"

text \<open>\<^verbatim>\<open>x + y\<close> on numbers: opposite infinities give \<^verbatim>\<open>NaN\<close>.\<close>

fun jadd :: "jsnum \<Rightarrow> jsnum \<Rightarrow> jsnum" where
  "jadd NaN _ = NaN"
| "jadd _ NaN = NaN"
| "jadd (Fin a) (Fin b) = Fin (a + b)"
| "jadd PInf NInf = NaN"
| "jadd NInf PInf = NaN"
| "jadd PInf _ = PInf"
| "jadd NInf _ = NInf"
| "jadd _ PInf = PInf"
| "jadd _ NInf = NInf"

text \<open>
  \<^verbatim>\<open>x / y\<close>: \<^verbatim>\<open>0 / 0\<close> is \<^verbatim>\<open>NaN\<close>; a non-zero number over zero is an infinity
  (of the sign of the numerator: the zero is taken as positive).
\<close>

fun jdiv :: "jsnum \<Rightarrow> jsnum \<Rightarrow> jsnum" where
  "jdiv NaN _ = NaN"
| "jdiv _ NaN = NaN"
| "jdiv (Fin a) (Fin b) = (if b = 0 then jinf (jsign (Fin a)) else Fin (a / b))"
| "jdiv (Fin a) _ = Fin 0"
| "jdiv x (Fin b) = jinf (jsign x * (if b < 0 then -1 else 1))"
| "jdiv _ _ = NaN"

fun Math_floor :: "jsnum \<Rightarrow> jsnum" where
  "Math_floor (Fin a) = Fin (of_int \<lfloor>a\<rfloor>)"
| "Math_floor x = x"

text \<open>\<^verbatim>\<open>x < y\<close>: false whenever an operand is \<^verbatim>\<open>NaN\<close>.\<close>

fun jless :: "jsnum \<Rightarrow> jsnum \<Rightarrow> bool" where
  "jless NaN _ = False"
| "jless _ NaN = False"
| "jless (Fin a) (Fin b) = (a < b)"
| "jless NInf NInf = False"
| "jless NInf _ = True"
| "jless _ NInf = False"
| "jless PInf _ = False"
| "jless _ PInf = True"

text \<open>\<^verbatim>\<open>x == y\<close> on numbers: \<^verbatim>\<open>NaN\<close> equals nothing, itself included.\<close>

definition jseq :: "jsnum \<Rightarrow> jsnum \<Rightarrow> bool" where
  "jseq a b = (a = b \<and> \<not> isNaN a)"

definition jle :: "jsnum \<Rightarrow> jsnum \<Rightarrow> bool" where
  "jle a b = (jless a b \<or> jseq a b)"

text \<open>
  \<^verbatim>\<open>Math.min(...vs)\<close> and \<^verbatim>\<open>Math.max(...vs)\<close>: with no argument the results are
  \<^verbatim>\<open>Infinity\<close> and \<^verbatim>\<open>-Infinity\<close>; a \<^verbatim>\<open>NaN\<close> argument makes the result \<^verbatim>\<open>NaN\<close>.
\<close>

definition Math_min :: "jsnum list \<Rightarrow> jsnum" where
  "Math_min vs = foldl (\<lambda>lowest v. if isNaN lowest \<or> isNaN v then NaN
                                   else if jless v lowest then v else lowest) PInf vs"

definition Math_max :: "jsnum list \<Rightarrow> jsnum" where
  "Math_max vs = foldl (\<lambda>highest v. if isNaN highest \<or> isNaN v then NaN
                                    else if jless highest v then v else highest) NInf vs"

text \<open>What it means for a number to be the minimum, or the maximum, of a list.\<close>

definition least_of :: "jsnum list \<Rightarrow> jsnum \<Rightarrow> bool" where
  "least_of vs m = (m \<in> set vs \<and> (\<forall>v \<in> set vs. jle m v))"

definition greatest_of :: "jsnum list \<Rightarrow> jsnum \<Rightarrow> bool" where
  "greatest_of vs m = (m \<in> set vs \<and> (\<forall>v \<in> set vs. jle v m))"

section \<open>Data points\<close>

text \<open>
  A data point is a JavaScript object: a finite map from property names to values. The
  generator stores under \<^verbatim>\<open>date\<close> the ISO string of an instant, and under each of
  \<^verbatim>\<open>company\<close>, \<^verbatim>\<open>company + "_change"\<close> and \<^verbatim>\<open>company + "_volume"\<close> a number; all
  these names live in one name space. \<open>JDate t\<close> is the ISO string of the instant \<open>t\<close>
  (milliseconds since the epoch), \<open>JOther\<close> any other non-numeric string; a missing
  property (\<^verbatim>\<open>undefined\<close>) is \<open>None\<close>. The property name \<^verbatim>\<open>__proto__\<close>, which
  JavaScript does not store like the others, is outside the model: the statements about
  company names exclude it.
\<close>

datatype jsval = JDate int | JNum jsnum | JOther

type_synonym row = "string \<Rightarrow> jsval option"

text \<open>Conversion to a number: an ISO date string, like \<^verbatim>\<open>undefined\<close>, converts to \<^verbatim>\<open>NaN\<close>.\<close>

fun ToNumber :: "jsval option \<Rightarrow> jsnum" where
  "ToNumber (Some (JNum x)) = x"
| "ToNumber _ = NaN"

text \<open>The global \<^verbatim>\<open>isNaN(v)\<close>, which converts its argument first.\<close>

definition js_isNaN :: "jsval option \<Rightarrow> bool" where
  "js_isNaN v = isNaN (ToNumber v)"

text \<open>
  \<^verbatim>\<open>new Date(v)\<close>, as the instant it denotes; \<open>None\<close> is an invalid date. A number is
  truncated to an integer and must lie within 8.64e15 milliseconds of the epoch.
\<close>

fun new_Date :: "jsval option \<Rightarrow> int option" where
  "new_Date (Some (JDate t)) = Some t"
| "new_Date (Some (JNum (Fin r))) =
     (if \<bar>r\<bar> \<le> 8640000000000000 then Some (if 0 \<le> r then \<lfloor>r\<rfloor> else \<lceil>r\<rceil>) else None)"
| "new_Date _ = None"

section \<open>Visible-entity list\<close>

text \<open>
  \<^verbatim>\<open>toggleCompany\<close> (both Chart variants and StockChart): the next value of
  \<^verbatim>\<open>visibleCompanies\<close> as a function of the previous one,
  \<^verbatim>\<open>prev.includes(company) ? prev.filter((c) => c !== company) : [...prev, company]\<close>.
  The animation calls in the two branches touch the SVG only and are left out.
\<close>

definition toggleCompany :: "string list \<Rightarrow> string \<Rightarrow> string list" where
  "toggleCompany prev company =
     (if company \<in> set prev then filter (\<lambda>c. c \<noteq> company) prev else prev @ [company])"

section \<open>The domain of the vertical scale\<close>

text \<open>
  The render effect of Chart (both variants) first drops the rows whose date is invalid,
  then collects, row by row, the values of the visible companies under the key of the
  selected metric, keeping those for which \<^verbatim>\<open>isNaN\<close> is false. The minimum and the
  maximum are taken by spreading the collected values into \<^verbatim>\<open>Math.min\<close> and
  \<^verbatim>\<open>Math.max\<close>; the engine's limit on the number of arguments of a call is not modelled.
\<close>

definition validData :: "row list \<Rightarrow> row list" where
  "validData data = filter (\<lambda>d. new_Date (d ''date'') \<noteq> None) data"

definition metric_values :: "(string \<Rightarrow> string) \<Rightarrow> string list \<Rightarrow> row list \<Rightarrow> jsnum list" where
  "metric_values key visibleCompanies valid =
     concat (map (\<lambda>d. map ToNumber
                         (filter (\<lambda>v. \<not> js_isNaN v)
                            (map (\<lambda>company. d (key company)) visibleCompanies))) valid)"

definition yDomain :: "string \<Rightarrow> string list \<Rightarrow> row list \<Rightarrow> jsnum \<times> jsnum" where
  "yDomain filteredMetric visibleCompanies data =
     (let valid = validData data in
      if filteredMetric = ''price'' then
        (let values = metric_values (\<lambda>company. company) visibleCompanies valid
         in (jmul (Math_min values) (Fin 0.9), jmul (Math_max values) (Fin 1.1)))
      else if filteredMetric = ''volume'' then
        (let values = metric_values (\<lambda>company. company @ ''_volume'') visibleCompanies valid
         in (Fin 0, jmul (Math_max values) (Fin 1.1)))
      else
        (let values = metric_values (\<lambda>company. company @ ''_change'') visibleCompanies valid;
             absMax = Math_max [Math_abs (Math_min values), Math_abs (Math_max values)]
         in (jneg absMax, absMax)))"

text \<open>
  The effect returns before computing anything when the dataset is empty
  (\<^verbatim>\<open>if (!data.length || !svgRef.current) return\<close>); \<open>None\<close> is that early return.
\<close>

definition render_yDomain :: "string \<Rightarrow> string list \<Rightarrow> row list \<Rightarrow> (jsnum \<times> jsnum) option" where
  "render_yDomain filteredMetric visibleCompanies data =
     (if data = [] then None else Some (yDomain filteredMetric visibleCompanies data))"

text \<open>A small dataset for the examples: the second row has an invalid date.\<close>

definition demo_rows :: "row list" where
  "demo_rows =
     [[''date'' \<mapsto> JDate 0,
       ''A'' \<mapsto> JNum (Fin 10), ''A_change'' \<mapsto> JNum (Fin (-4)), ''A_volume'' \<mapsto> JNum (Fin 500),
       ''B'' \<mapsto> JNum (Fin 20), ''B_change'' \<mapsto> JNum (Fin 3), ''B_volume'' \<mapsto> JNum (Fin 900)],
      [''date'' \<mapsto> JNum NaN,
       ''A'' \<mapsto> JNum (Fin 1), ''A_change'' \<mapsto> JNum (Fin (-40)), ''A_volume'' \<mapsto> JNum (Fin 5000)]]"

section \<open>The series generator\<close>

text \<open>
  \<^verbatim>\<open>generateStockData\<close> reads the clock and \<^verbatim>\<open>Math.random\<close>; both are inputs of the
  model. \<open>now\<close> is the instant \<^verbatim>\<open>new Date()\<close> returns (milliseconds since the epoch),
  \<open>tza\<close> the offset of local time from UTC, \<open>month_start\<close> the calendar (the day number
  of the first day of the month a day number falls in) and \<open>random k\<close> the value of the
  \<open>k\<close>-th call of \<^verbatim>\<open>Math.random\<close>, counted from 0. The offset is constant: a zone
  whose offset changes between two points (daylight saving time) is not modelled.
\<close>

datatype js_error = RangeError | TypeError

record env =
  now :: int
  tza :: int
  month_start :: "int \<Rightarrow> int"
  random :: "nat \<Rightarrow> real"

definition msPerHour :: int where
  "msPerHour = 3600000"

definition msPerDay :: int where
  "msPerDay = 86400000"

text \<open>
  The methods of \<^verbatim>\<open>Date\<close> the generator calls, on a time value. A time value further
  than 8.64e15 ms from the epoch is invalid (\<open>None\<close>), and \<^verbatim>\<open>toISOString\<close> throws a
  \<^verbatim>\<open>RangeError\<close> on an invalid date. \<^verbatim>\<open>setHours\<close> and \<^verbatim>\<open>setDate\<close> accept any
  integer, also zero and negative ones, and carry into the neighbouring days and months.
\<close>

definition TimeClip :: "int \<Rightarrow> int option" where
  "TimeClip t = (if \<bar>t\<bar> \<le> 8640000000000000 then Some t else None)"

definition getHours :: "env \<Rightarrow> int \<Rightarrow> int" where
  "getHours e t = ((t + tza e) div msPerHour) mod 24"

definition setHours :: "env \<Rightarrow> int \<Rightarrow> int \<Rightarrow> int option" where
  "setHours e t hour =
     (let local = t + tza e;
          time = hour * msPerHour + local mod msPerHour;
          date = (local div msPerDay) * msPerDay + time
      in TimeClip (date - tza e))"

definition getDate :: "env \<Rightarrow> int \<Rightarrow> int" where
  "getDate e t = (let day = (t + tza e) div msPerDay in day - month_start e day + 1)"

definition setDate :: "env \<Rightarrow> int \<Rightarrow> int \<Rightarrow> int option" where
  "setDate e t dt =
     (let local = t + tza e;
          day = month_start e (local div msPerDay) + dt - 1
      in TimeClip (day * msPerDay + local mod msPerDay - tza e))"

definition toISOString :: "int option \<Rightarrow> js_error + jsval" where
  "toISOString tv = (case tv of None \<Rightarrow> Inl RangeError | Some t \<Rightarrow> Inr (JDate t))"

text \<open>
  \<^verbatim>\<open>prevValue + change\<close>: with a string on the left the result is a string, otherwise
  the sum of the two numbers.
\<close>

fun js_plus :: "jsval option \<Rightarrow> jsnum \<Rightarrow> jsval" where
  "js_plus (Some (JDate t)) x = JOther"
| "js_plus (Some JOther) x = JOther"
| "js_plus v x = JNum (jadd (ToNumber v) x)"

subsection \<open>The generator of Chart.jsx (both variants)\<close>

definition rangeMultiplier :: "string \<Rightarrow> real" where
  "rangeMultiplier timeRange =
     (if timeRange = ''day'' then 0.5
      else if timeRange = ''week'' then 1
      else if timeRange = ''month'' then 2
      else 3)"

text \<open>
  The first \<^verbatim>\<open>companies.forEach\<close>: one draw per company,
  \<^verbatim>\<open>initialValues[company] = Math.random() * 400 + 100\<close>. \<open>k\<close> counts the draws made.
\<close>

fun initialValues :: "(nat \<Rightarrow> real) \<Rightarrow> string list \<Rightarrow> nat \<Rightarrow> row \<Rightarrow> row \<times> nat" where
  "initialValues rnd [] k iv = (iv, k)"
| "initialValues rnd (company # cs) k iv =
     initialValues rnd cs (k + 1)
       (iv(company \<mapsto> JNum (jadd (jmul (Fin (rnd k)) (Fin 400)) (Fin 100))))"

text \<open>
  The \<^verbatim>\<open>companies.forEach\<close> inside the loop: for each company, in order, two draws and
  three assignments to the data point. \<open>prev\<close> is the object the previous value is read
  from: \<^verbatim>\<open>initialValues\<close> in the first iteration, \<^verbatim>\<open>data[i - 1]\<close> afterwards.
\<close>

fun update_companies :: "(nat \<Rightarrow> real) \<Rightarrow> real \<Rightarrow> row \<Rightarrow> string list \<Rightarrow> nat \<Rightarrow> row \<Rightarrow> row \<times> nat" where
  "update_companies rnd m prev [] k dataPoint = (dataPoint, k)"
| "update_companies rnd m prev (company # cs) k dataPoint =
     (let prevValue = prev company;
          change = jmul (jmul (ToNumber prevValue)
                              (jadd (jmul (Fin (rnd k)) (Fin 0.1)) (jneg (Fin 0.05))))
                        (Fin m);
          percentChange = jmul (jdiv change (ToNumber prevValue)) (Fin 100);
          volume = Math_floor (jadd (jmul (Fin (rnd (k + 1))) (Fin 990000)) (Fin 10000))
      in update_companies rnd m prev cs (k + 2)
           (dataPoint(company \<mapsto> js_plus prevValue change,
                      company @ ''_change'' \<mapsto> JNum percentChange,
                      company @ ''_volume'' \<mapsto> JNum volume)))"

text \<open>
  The date of the point that lies \<open>back\<close> steps before the last one:
  \<^verbatim>\<open>date.setHours(today.getHours() - back)\<close> for the range \<^verbatim>\<open>day\<close>,
  \<^verbatim>\<open>date.setDate(today.getDate() - back)\<close> otherwise.
\<close>

definition point_date :: "env \<Rightarrow> string \<Rightarrow> int \<Rightarrow> int option" where
  "point_date e timeRange back =
     (if timeRange = ''day'' then setHours e (now e) (getHours e (now e) - back)
      else setDate e (now e) (getDate e (now e) - back))"

text \<open>
  The \<^verbatim>\<open>for\<close> loop, from the iteration \<open>i\<close> on, with \<open>data\<close> the points pushed so far.
  Reading \<^verbatim>\<open>data[i - 1][company]\<close> when \<^verbatim>\<open>data[i - 1]\<close> does not exist is a
  \<^verbatim>\<open>TypeError\<close>.
\<close>

function gen_loop :: "env \<Rightarrow> nat \<Rightarrow> string list \<Rightarrow> string \<Rightarrow> row \<Rightarrow> nat \<Rightarrow> nat \<Rightarrow> row list
                        \<Rightarrow> js_error + row list" where
  "gen_loop e numPoints companies timeRange iv i k data =
     (if i < numPoints then
        (case toISOString (point_date e timeRange (int numPoints - int i - 1)) of
           Inl err \<Rightarrow> Inl err
         | Inr stamp \<Rightarrow>
             (if i \<noteq> 0 \<and> length data \<le> i - 1 then Inl TypeError
              else
                (let prev = (if i = 0 then iv else data ! (i - 1));
                     step = update_companies (random e) (rangeMultiplier timeRange) prev
                              companies k [''date'' \<mapsto> stamp]
                 in gen_loop e numPoints companies timeRange iv (i + 1) (snd step)
                      (data @ [fst step]))))
      else Inr data)"
  by pat_completeness auto
termination
  by (relation "measure (\<lambda>(e, numPoints, companies, timeRange, iv, i, k, data). numPoints - i)") auto

declare gen_loop.simps [simp del]

definition generateStockData :: "env \<Rightarrow> nat \<Rightarrow> string list \<Rightarrow> string \<Rightarrow> js_error + row list" where
  "generateStockData e numPoints companies timeRange =
     (let init = initialValues (random e) companies 0 Map.empty
      in gen_loop e numPoints companies timeRange (fst init) 0 (snd init) [])"

subsection \<open>The generator of lib/data-generator.js\<close>

text \<open>
  The older generator has no time range: every step is a day, the change is not scaled,
  and a data point carries the date and the prices only.
\<close>

fun update_companies_lib :: "(nat \<Rightarrow> real) \<Rightarrow> row \<Rightarrow> string list \<Rightarrow> nat \<Rightarrow> row \<Rightarrow> row \<times> nat" where
  "update_companies_lib rnd prev [] k dataPoint = (dataPoint, k)"
| "update_companies_lib rnd prev (company # cs) k dataPoint =
     (let prevValue = prev company;
          change = jmul (ToNumber prevValue)
                        (jadd (jmul (Fin (rnd k)) (Fin 0.1)) (jneg (Fin 0.05)))
      in update_companies_lib rnd prev cs (k + 1)
           (dataPoint(company \<mapsto> js_plus prevValue change)))"

function gen_loop_lib :: "env \<Rightarrow> nat \<Rightarrow> string list \<Rightarrow> row \<Rightarrow> nat \<Rightarrow> nat \<Rightarrow> row list
                            \<Rightarrow> js_error + row list" where
  "gen_loop_lib e numPoints companies iv i k data =
     (if i < numPoints then
        (case toISOString (setDate e (now e) (getDate e (now e) - (int numPoints - int i - 1))) of
           Inl err \<Rightarrow> Inl err
         | Inr stamp \<Rightarrow>
             (if i \<noteq> 0 \<and> length data \<le> i - 1 then Inl TypeError
              else
                (let prev = (if i = 0 then iv else data ! (i - 1));
                     step = update_companies_lib (random e) prev companies k [''date'' \<mapsto> stamp]
                 in gen_loop_lib e numPoints companies iv (i + 1) (snd step)
                      (data @ [fst step]))))
      else Inr data)"
  by pat_completeness auto
termination
  by (relation "measure (\<lambda>(e, numPoints, companies, iv, i, k, data). numPoints - i)") auto

declare gen_loop_lib.simps [simp del]

definition generateStockData_lib :: "env \<Rightarrow> nat \<Rightarrow> string list \<Rightarrow> js_error + row list" where
  "generateStockData_lib e numPoints companies =
     (let init = initialValues (random e) companies 0 Map.empty
      in gen_loop_lib e numPoints companies (fst init) 0 (snd init) [])"

subsection \<open>Notions used to state the generator's properties\<close>

text \<open>The length of a step in milliseconds: an hour for the range \<^verbatim>\<open>day\<close>, else a day.\<close>

definition time_unit :: "string \<Rightarrow> int" where
  "time_unit timeRange = (if timeRange = ''day'' then msPerHour else msPerDay)"

text \<open>The instants of a dataset, as the chart reads them (\<^verbatim>\<open>new Date(d.date)\<close>).\<close>

definition timestamps :: "row list \<Rightarrow> int option list" where
  "timestamps data = map (\<lambda>d. new_Date (d ''date'')) data"

definition strictly_increasing :: "int option list \<Rightarrow> bool" where
  "strictly_increasing ts =
     sorted_wrt (\<lambda>a b. case (a, b) of (Some s, Some t) \<Rightarrow> s < t | _ \<Rightarrow> False) ts"

definition spaced :: "int \<Rightarrow> int option list \<Rightarrow> bool" where
  "spaced unit ts =
     (\<forall>i. Suc i < length ts \<longrightarrow>
        (case (ts ! i, ts ! Suc i) of (Some s, Some t) \<Rightarrow> t - s = unit | _ \<Rightarrow> False))"

text \<open>The \<open>n\<close> instants that end at \<open>t\<close> and lie \<open>unit\<close> apart.\<close>

definition back_times :: "int \<Rightarrow> int \<Rightarrow> nat \<Rightarrow> int list" where
  "back_times t unit n = map (\<lambda>i. t - (int n - 1 - int i) * unit) [0..<n]"



text \<open>
  Two environments for the examples: in \<open>env0\<close> every draw is 0, in \<open>env1\<close> the draws
  alternate between 0 and 3/4. The calendar of the examples has months of thirty days.
\<close>

definition env0 :: env where
  "env0 = \<lparr> now = 1700000000000, tza = 3600000, month_start = (\<lambda>d. d - d mod 30),
            random = (\<lambda>k. 0) \<rparr>"

definition env1 :: env where
  "env1 = \<lparr> now = 1700000000000, tza = 3600000, month_start = (\<lambda>d. d - d mod 30),
            random = (\<lambda>k. if even k then 0 else 3 / 4) \<rparr>"


text \<open>The defining equations that evaluate the generator on a concrete input.\<close>

lemmas eval_gen = generateStockData_def generateStockData_lib_def gen_loop.simps gen_loop_lib.simps
  env0_def env1_def point_date_def setDate_def getDate_def setHours_def getHours_def TimeClip_def
  toISOString_def msPerDay_def msPerHour_def rangeMultiplier_def Let_def timestamps_def

section \<open>Zoom and pan\<close>

text \<open>
  Three components install a d3 zoom behaviour: Chart of src/components/Chart.jsx, the
  Chart variant with the reset button (unnamed/part_003) and StockChart
  (unnamed/part_002). The behaviour itself is d3's; what the model takes from d3 is that
  a wheel, pinch or double-click gesture sets the scale factor to the requested factor
  clamped to \<^verbatim>\<open>scaleExtent\<close>, that a drag changes the translation only, and that
  \<^verbatim>\<open>zoom.transform\<close> installs the transform it is given. The components call
  \<^verbatim>\<open>zoom.transform\<close> with \<^verbatim>\<open>d3.zoomIdentity\<close> only (double-click in Chart.jsx, the
  reset button and the initial call in part_003; StockChart never does).
\<close>

datatype chart = Chart_jsx | Chart_part_003 | StockChart_part_002

record transform =
  tk :: real
  tx :: real
  ty :: real

definition zoomIdentity :: transform where
  "zoomIdentity = \<lparr> tk = 1, tx = 0, ty = 0 \<rparr>"

text \<open>The argument of \<^verbatim>\<open>.scaleExtent(...)\<close> in each component.\<close>

definition scaleExtent :: "chart \<Rightarrow> real \<times> real" where
  "scaleExtent c = (case c of Chart_jsx \<Rightarrow> (0.5, 20)
                            | Chart_part_003 \<Rightarrow> (0.8, 4)
                            | StockChart_part_002 \<Rightarrow> (1, 5))"

text \<open>
  A gesture: a request for the scale factor \<open>k\<close> (with the translation d3 derives for it),
  a translation, or a reset.
\<close>

datatype gesture = Scale real real real | Translate real real | Reset

definition has_reset :: "chart \<Rightarrow> bool" where
  "has_reset c = (c \<noteq> StockChart_part_002)"

fun zoom_gesture :: "chart \<Rightarrow> transform \<Rightarrow> gesture \<Rightarrow> transform" where
  "zoom_gesture c t (Scale k x y) =
     \<lparr> tk = max (fst (scaleExtent c)) (min (snd (scaleExtent c)) k), tx = x, ty = y \<rparr>"
| "zoom_gesture c t (Translate x y) = t \<lparr> tx := x, ty := y \<rparr>"
| "zoom_gesture c t Reset = (if has_reset c then zoomIdentity else t)"

text \<open>The transform after a sequence of gestures, starting from the identity.\<close>

definition zoom_run :: "chart \<Rightarrow> gesture list \<Rightarrow> transform" where
  "zoom_run c gs = foldl (zoom_gesture c) zoomIdentity gs"

definition in_extent :: "real \<times> real \<Rightarrow> real \<Rightarrow> bool" where
  "in_extent ext k = (fst ext \<le> k \<and> k \<le> snd ext)"

subsection \<open>The zoom handler and the scale objects\<close>

text \<open>
  Scales are mutable objects, so the scene keeps them in a store: \<open>heap\<close> maps an address
  to the scale object there, \<open>fresh\<close> is the next unused address. \<open>x_scale\<close> and
  \<open>y_scale\<close> are the addresses of the scales \<^verbatim>\<open>x\<close> and \<^verbatim>\<open>y\<close> that the render effect built;
  the other fields record which scale object the axes, the grid and the lines of
  StockChart were last drawn with, and the transform attribute of the chart group.
\<close>

record scale =
  dom :: "jsnum \<times> jsnum"
  rng :: "real \<times> real"

record scene =
  heap :: "nat \<Rightarrow> scale option"
  fresh :: nat
  x_scale :: nat
  y_scale :: nat
  xAxis_scale :: nat
  yAxis_scale :: nat
  xGrid_scale :: nat
  yGrid_scale :: nat
  line_x_scale :: nat
  group_transform :: "transform option"

text \<open>
  \<^verbatim>\<open>transform.rescaleX(x)\<close> and \<^verbatim>\<open>transform.rescaleY(y)\<close>: d3 returns
  \<^verbatim>\<open>x.copy().domain(...)\<close>, a new scale object with the range of the old one and a domain
  computed from the transform and the old scale. The computation of the new domain is
  d3's and is a parameter here (\<open>newDomain\<close>).
\<close>

definition rescale :: "(transform \<Rightarrow> scale \<Rightarrow> jsnum \<times> jsnum) \<Rightarrow> transform \<Rightarrow> nat \<Rightarrow> scene \<Rightarrow> nat \<times> scene" where
  "rescale newDomain t r s =
     (case heap s r of
        None \<Rightarrow> (r, s)
      | Some sc \<Rightarrow>
          (fresh s, s \<lparr> heap := (heap s)(fresh s \<mapsto> sc \<lparr> dom := newDomain t sc \<rparr>),
                          fresh := fresh s + 1 \<rparr>))"

text \<open>
  The \<^verbatim>\<open>zoom\<close> event handler of each component, on the transform of the event.
  Chart.jsx redraws both axes with the rescaled copies and sets the group's transform
  (its grid update selects \<^verbatim>\<open>.x-grid\<close> and \<^verbatim>\<open>.y-grid\<close> inside the grid groups, where
  nothing has these classes). The part_003 variant sets the group's transform first and
  redraws the axes and both grids. StockChart rescales the horizontal scale only and
  redraws the axis, the lines and the dots with it, reading \<^verbatim>\<open>y\<close> as it is.
\<close>

definition zoom_handler ::
  "(transform \<Rightarrow> scale \<Rightarrow> jsnum \<times> jsnum) \<Rightarrow> (transform \<Rightarrow> scale \<Rightarrow> jsnum \<times> jsnum)
     \<Rightarrow> chart \<Rightarrow> scene \<Rightarrow> transform \<Rightarrow> scene" where
  "zoom_handler domX domY c s t =
     (case c of
        Chart_jsx \<Rightarrow>
          (let (newX, s) = rescale domX t (x_scale s) s;
               (newY, s) = rescale domY t (y_scale s) s
           in s \<lparr> xAxis_scale := newX, yAxis_scale := newY, group_transform := Some t \<rparr>)
      | Chart_part_003 \<Rightarrow>
          (let s = s \<lparr> group_transform := Some t \<rparr>;
               (newX, s) = rescale domX t (x_scale s) s;
               (newY, s) = rescale domY t (y_scale s) s
           in s \<lparr> xAxis_scale := newX, yAxis_scale := newY,
                   xGrid_scale := newX, yGrid_scale := newY \<rparr>)
      | StockChart_part_002 \<Rightarrow>
          (let (newX, s) = rescale domX t (x_scale s) s
           in s \<lparr> xAxis_scale := newX, line_x_scale := newX \<rparr>))"

text \<open>
  The static scale pair: the two references and the objects they point to (domain and
  range). A scene is \<open>allocated\<close> when both references are addresses in use.
\<close>

definition static_scales :: "scene \<Rightarrow> nat \<times> scale option \<times> nat \<times> scale option" where
  "static_scales s = (x_scale s, heap s (x_scale s), y_scale s, heap s (y_scale s))"

definition allocated :: "scene \<Rightarrow> bool" where
  "allocated s = (x_scale s < fresh s \<and> y_scale s < fresh s)"

definition scene0 :: scene where
  "scene0 =
     \<lparr> heap = [0 \<mapsto> \<lparr> dom = (Fin 0, Fin 86400000), rng = (0, 600) \<rparr>,
                1 \<mapsto> \<lparr> dom = (Fin 90, Fin 550), rng = (260, 0) \<rparr>],
       fresh = 2, x_scale = 0, y_scale = 1,
       xAxis_scale = 0, yAxis_scale = 1, xGrid_scale = 0, yGrid_scale = 1,
       line_x_scale = 0, group_transform = None \<rparr>"

section \<open>The tooltip formatter\<close>

text \<open>
  \<^verbatim>\<open>Number.prototype.toFixed(f)\<close>, for \<open>f\<close> up to 100: the sign, then the integer \<open>n\<close>
  nearest to \<open>|x| \<times> 10^f\<close> (the larger one of two equally near) written in decimal,
  left-padded with zeros to \<open>f + 1\<close> digits, with a point before the last \<open>f\<close> digits.
  From \<open>10^21\<close> on the result is the number's ordinary string (exponent notation): that
  string is a parameter (\<open>bigToString\<close>).
\<close>

definition digit_char :: "nat \<Rightarrow> char" where
  "digit_char d = ''0123456789'' ! d"

function digits :: "nat \<Rightarrow> string" where
  "digits n = (if n < 10 then [digit_char n] else digits (n div 10) @ [digit_char (n mod 10)])"
  by pat_completeness auto
termination
  by (relation "measure id") auto

declare digits.simps [simp del]

definition toFixed :: "(real \<Rightarrow> string) \<Rightarrow> nat \<Rightarrow> jsnum \<Rightarrow> string" where
  "toFixed bigToString f x =
     (case x of
        NaN \<Rightarrow> ''NaN''
      | PInf \<Rightarrow> ''Infinity''
      | NInf \<Rightarrow> ''-Infinity''
      | Fin r \<Rightarrow>
          (let s = (if r < 0 then ''-'' else []);
               a = \<bar>r\<bar>
           in if 10 ^ 21 \<le> a then s @ bigToString a
              else
                (let n = nat \<lfloor>a * 10 ^ f + 1 / 2\<rfloor>;
                     m = digits n;
                     m = (if f \<noteq> 0 then
                            (let m = replicate (f + 1 - length m) (CHR ''0'') @ m;
                                 k = length m
                             in take (k - f) m @ ''.'' @ drop (k - f) m)
                          else m)
                 in s @ m)))"

text \<open>
  \<^verbatim>\<open>formatValue\<close> of Tooltip.jsx. \<open>compactFormat\<close> stands for
  \<^verbatim>\<open>new Intl.NumberFormat("en-US", { notation: "compact" }).format\<close>, whose output is the
  platform's.
\<close>

definition formatValue :: "(real \<Rightarrow> string) \<Rightarrow> (jsnum \<Rightarrow> string) \<Rightarrow> jsnum \<Rightarrow> string \<Rightarrow> string" where
  "formatValue bigToString compactFormat value metric =
     (if metric = ''price'' then ''$'' @ toFixed bigToString 2 value
      else if metric = ''volume'' then compactFormat value
      else toFixed bigToString 1 value @ ''%'')"

text \<open>Reading a string of decimal digits back as a number.\<close>

definition is_digit :: "char \<Rightarrow> bool" where
  "is_digit c = (c \<in> set ''0123456789'')"

definition digit_value :: "char \<Rightarrow> nat" where
  "digit_value c = of_char c - 48"

definition read_digits :: "string \<Rightarrow> nat" where
  "read_digits cs = foldl (\<lambda>a c. 10 * a + digit_value c) 0 cs"

section \<open>Properties of the number model\<close>

lemma jle_refl: "\<not> isNaN a \<Longrightarrow> jle a a"
  by (simp add: jle_def jseq_def)

lemma jle_trans: "jle a b \<Longrightarrow> jle b c \<Longrightarrow> jle a c"
  by (cases a; cases b; cases c) (auto simp: jle_def jseq_def)

lemma jle_total: "\<not> isNaN a \<Longrightarrow> \<not> isNaN b \<Longrightarrow> \<not> jless a b \<Longrightarrow> jle b a"
  by (cases a; cases b) (auto simp: jle_def jseq_def)

lemma jless_jle: "jless a b \<Longrightarrow> jle a b"
  by (simp add: jle_def)

lemma jneg_NaN: "isNaN (jneg v) = isNaN v"
  by (cases v) simp_all

lemma abs_not_NaN: "\<not> isNaN v \<Longrightarrow> \<not> isNaN (Math_abs v)"
  by (cases v) simp_all

lemma foldl_min:
  assumes "\<not> isNaN acc" "\<forall>v \<in> set vs. \<not> isNaN v"
  shows "(let m = foldl (\<lambda>lowest v. if isNaN lowest \<or> isNaN v then NaN
                                   else if jless v lowest then v else lowest) acc vs
          in (m = acc \<or> m \<in> set vs) \<and> jle m acc \<and> (\<forall>v \<in> set vs. jle m v))"
  using assms
proof (induction vs arbitrary: acc)
  case Nil
  then show ?case by (simp add: jle_refl)
next
  case (Cons a vs)
  show ?case
  proof (cases "jless a acc")
    case True
    have "\<not> isNaN a" using Cons.prems by simp
    from Cons.IH[OF this] Cons.prems True show ?thesis
      by (auto simp: Let_def intro: jle_trans jless_jle)
  next
    case False
    from Cons.IH[of acc] Cons.prems False show ?thesis
      by (auto simp: Let_def intro: jle_trans jle_total)
  qed
qed

lemma foldl_max:
  assumes "\<not> isNaN acc" "\<forall>v \<in> set vs. \<not> isNaN v"
  shows "(let m = foldl (\<lambda>highest v. if isNaN highest \<or> isNaN v then NaN
                                    else if jless highest v then v else highest) acc vs
          in (m = acc \<or> m \<in> set vs) \<and> jle acc m \<and> (\<forall>v \<in> set vs. jle v m))"
  using assms
proof (induction vs arbitrary: acc)
  case Nil
  then show ?case by (simp add: jle_refl)
next
  case (Cons a vs)
  show ?case
  proof (cases "jless acc a")
    case True
    have "\<not> isNaN a" using Cons.prems by simp
    from Cons.IH[OF this] Cons.prems True show ?thesis
      by (auto simp: Let_def intro: jle_trans jless_jle)
  next
    case False
    from Cons.IH[of acc] Cons.prems False show ?thesis
      by (auto simp: Let_def intro: jle_trans jle_total)
  qed
qed

lemma Math_min_least:
  assumes "vs \<noteq> []" "\<forall>v \<in> set vs. \<not> isNaN v"
  shows "least_of vs (Math_min vs)"
proof -
  let ?m = "Math_min vs"
  from foldl_min[of PInf vs] assms(2)
  have m: "?m = PInf \<or> ?m \<in> set vs" and le: "\<forall>v \<in> set vs. jle ?m v"
    by (simp_all add: Math_min_def Let_def)
  show ?thesis
  proof (cases "?m \<in> set vs")
    case True
    with le show ?thesis by (simp add: least_of_def)
  next
    case False
    with m have p: "?m = PInf" by simp
    from assms(1) obtain v where v: "v \<in> set vs" by (cases vs) auto
    with le p have "jle PInf v" by auto
    then have "v = PInf" by (cases v) (auto simp: jle_def jseq_def)
    with v p False show ?thesis by simp
  qed
qed

lemma Math_max_greatest:
  assumes "vs \<noteq> []" "\<forall>v \<in> set vs. \<not> isNaN v"
  shows "greatest_of vs (Math_max vs)"
proof -
  let ?m = "Math_max vs"
  from foldl_max[of NInf vs] assms(2)
  have m: "?m = NInf \<or> ?m \<in> set vs" and le: "\<forall>v \<in> set vs. jle v ?m"
    by (simp_all add: Math_max_def Let_def)
  show ?thesis
  proof (cases "?m \<in> set vs")
    case True
    with le show ?thesis by (simp add: greatest_of_def)
  next
    case False
    with m have p: "?m = NInf" by simp
    from assms(1) obtain v where v: "v \<in> set vs" by (cases vs) auto
    with le p have "jle v NInf" by auto
    then have "v = NInf" by (cases v) (auto simp: jle_def jseq_def)
    with v p False show ?thesis by simp
  qed
qed

lemma Math_max_pair:
  "\<not> isNaN a \<Longrightarrow> \<not> isNaN b \<Longrightarrow> Math_max [a, b] = (if jless a b then b else a)"
  by (cases a; cases b) (simp_all add: Math_max_def)

lemma abs_between:
  assumes "jle mn v" "jle v mx"
  shows "jle (Math_abs v) (Math_max [Math_abs mn, Math_abs mx])"
  using assms by (cases mn; cases v; cases mx) (auto simp: Math_max_def jle_def jseq_def)

section \<open>Toggling\<close>

text \<open>
  C6 (as stated, refuted): toggling a visible entity off and on again does not restore the
  ordered list. In \<open>[A, B, C]\<close>, toggling \<open>A\<close> twice gives \<open>[B, C, A]\<close>.
\<close>

theorem toggle_off_on_not_identity:
  "toggleCompany (toggleCompany [''A'', ''B'', ''C''] ''A'') ''A'' \<noteq> [''A'', ''B'', ''C'']"
  by (simp add: toggleCompany_def)

text \<open>
  C6 (amended): for an entity present in the visible list, toggling it off and on again
  yields the list with every occurrence of the entity removed and the entity appended at
  the end. The set of visible entities is restored, and the other entities keep their
  relative order.
\<close>

theorem toggle_off_on_moves_last:
  assumes "company \<in> set prev"
  shows "toggleCompany (toggleCompany prev company) company
           = filter (\<lambda>c. c \<noteq> company) prev @ [company]
         \<and> set (toggleCompany (toggleCompany prev company) company) = set prev
         \<and> filter (\<lambda>c. c \<noteq> company) (toggleCompany (toggleCompany prev company) company)
           = filter (\<lambda>c. c \<noteq> company) prev"
proof -
  have off: "toggleCompany prev company = filter (\<lambda>c. c \<noteq> company) prev"
    using assms by (simp add: toggleCompany_def)
  have on: "toggleCompany (filter (\<lambda>c. c \<noteq> company) prev) company
              = filter (\<lambda>c. c \<noteq> company) prev @ [company]"
    by (simp add: toggleCompany_def)
  have s: "set (filter (\<lambda>c. c \<noteq> company) prev @ [company]) = set prev"
    using assms by auto
  show ?thesis
    unfolding off on using s by simp
qed

theorem toggle_off_on_moves_last_witness:
  "''B'' \<in> set [''A'', ''B'', ''C'']
   \<and> toggleCompany (toggleCompany [''A'', ''B'', ''C''] ''B'') ''B'' = [''A'', ''C'', ''B'']"
  using toggle_off_on_moves_last [of "''B''" "[''A'', ''B'', ''C'']"] by simp

section \<open>The vertical domain\<close>

lemma metric_values_empty: "metric_values key [] valid = []"
  by (simp add: metric_values_def)

lemma metric_values_not_NaN: "v \<in> set (metric_values key vis valid) \<Longrightarrow> \<not> isNaN v"
  by (auto simp: metric_values_def js_isNaN_def)

lemma demo_change_values:
  "metric_values (\<lambda>company. company @ ''_change'') [''A'', ''B'', ''C''] (validData demo_rows)
     = [Fin (-4), Fin 3]"
  by (simp add: metric_values_def validData_def demo_rows_def js_isNaN_def)

lemma demo_price_values:
  "metric_values (\<lambda>company. company) [''A'', ''B'', ''C''] (validData demo_rows)
     = [Fin 10, Fin 20]"
  by (simp add: metric_values_def validData_def demo_rows_def js_isNaN_def)

lemma demo_volume_values:
  "metric_values (\<lambda>company. company @ ''_volume'') [''A'', ''B'', ''C''] (validData demo_rows)
     = [Fin 500, Fin 900]"
  by (simp add: metric_values_def validData_def demo_rows_def js_isNaN_def)

text \<open>
  C1 (as stated, refuted): with every entity hidden and metric \<^verbatim>\<open>volume\<close>, the domain
  computed for a one-row dataset is \<^verbatim>\<open>[0, -Infinity]\<close>, not the default \<^verbatim>\<open>[0, 1]\<close>.
\<close>

theorem empty_visible_volume_not_default:
  "render_yDomain ''volume'' [] [[''date'' \<mapsto> JDate 0]] = Some (Fin 0, NInf)
   \<and> render_yDomain ''volume'' [] [[''date'' \<mapsto> JDate 0]] \<noteq> Some (Fin 0, Fin 1)"
  by (simp add: render_yDomain_def yDomain_def metric_values_empty Math_max_def)

text \<open>
  C1 (amended): for every non-empty dataset and every metric, if the visible-entity list
  is empty the domain has no \<^verbatim>\<open>NaN\<close> endpoint, but it is not replaced by a default: it
  is \<^verbatim>\<open>[Infinity, -Infinity]\<close> for \<^verbatim>\<open>price\<close>, \<^verbatim>\<open>[0, -Infinity]\<close> for \<^verbatim>\<open>volume\<close> and
  \<^verbatim>\<open>[-Infinity, Infinity]\<close> for any other metric.
\<close>

theorem empty_visible_domain:
  assumes "data \<noteq> []"
  shows "render_yDomain filteredMetric [] data
           = Some (if filteredMetric = ''price'' then (PInf, NInf)
                   else if filteredMetric = ''volume'' then (Fin 0, NInf)
                   else (NInf, PInf))
         \<and> (\<exists>lo hi. render_yDomain filteredMetric [] data = Some (lo, hi)
                \<and> \<not> isNaN lo \<and> \<not> isNaN hi)"
  using assms
  by (simp add: render_yDomain_def yDomain_def metric_values_empty Math_max_def Math_min_def)

theorem empty_visible_domain_witness:
  "demo_rows \<noteq> [] \<and> render_yDomain ''change'' [] demo_rows = Some (NInf, PInf)"
proof -
  have ne: "demo_rows \<noteq> []" by (simp add: demo_rows_def)
  from empty_visible_domain [OF ne, of "''change''"] ne show ?thesis by simp
qed

text \<open>
  C3: when the visible entities have at least one change value, the domain computed for
  metric \<^verbatim>\<open>change\<close> is symmetric about zero: its lower end equals (\<^verbatim>\<open>==\<close>) the negation
  of its upper end, and the upper end is the greatest absolute value among the visible
  entities' change values.
\<close>

theorem change_domain_symmetric:
  assumes "metric_values (\<lambda>company. company @ ''_change'') visibleCompanies (validData data) \<noteq> []"
  shows "jseq (fst (yDomain ''change'' visibleCompanies data))
              (jneg (snd (yDomain ''change'' visibleCompanies data)))
         \<and> greatest_of
              (map Math_abs
                 (metric_values (\<lambda>company. company @ ''_change'') visibleCompanies (validData data)))
              (snd (yDomain ''change'' visibleCompanies data))"
proof -
  let ?vs = "metric_values (\<lambda>company. company @ ''_change'') visibleCompanies (validData data)"
  let ?mn = "Math_min ?vs" and ?mx = "Math_max ?vs"
  let ?absMax = "Math_max [Math_abs ?mn, Math_abs ?mx]"
  have dom: "yDomain ''change'' visibleCompanies data = (jneg ?absMax, ?absMax)"
    by (simp add: yDomain_def Let_def)
  have nn: "\<forall>v \<in> set ?vs. \<not> isNaN v"
    using metric_values_not_NaN by blast
  have mn: "least_of ?vs ?mn" using Math_min_least[OF assms nn] .
  have mx: "greatest_of ?vs ?mx" using Math_max_greatest[OF assms nn] .
  have mn_in: "?mn \<in> set ?vs" and mx_in: "?mx \<in> set ?vs"
    using mn mx by (simp_all add: least_of_def greatest_of_def)
  have an: "\<not> isNaN (Math_abs ?mn)" "\<not> isNaN (Math_abs ?mx)"
    using mn_in mx_in nn abs_not_NaN by blast+
  have pair: "?absMax = (if jless (Math_abs ?mn) (Math_abs ?mx) then Math_abs ?mx else Math_abs ?mn)"
    using Math_max_pair[OF an] .
  have mem: "?absMax \<in> set (map Math_abs ?vs)"
    using pair mn_in mx_in by auto
  have notnan: "\<not> isNaN ?absMax" using pair an by simp
  have ub: "\<forall>w \<in> set (map Math_abs ?vs). jle w ?absMax"
  proof
    fix w assume "w \<in> set (map Math_abs ?vs)"
    then obtain v where v: "v \<in> set ?vs" and w: "w = Math_abs v" by auto
    from mn v have "jle ?mn v" by (simp add: least_of_def)
    moreover from mx v have "jle v ?mx" by (simp add: greatest_of_def)
    ultimately show "jle w ?absMax" unfolding w by (rule abs_between)
  qed
  show ?thesis
    unfolding dom using mem ub notnan by (simp add: jseq_def greatest_of_def jneg_NaN)
qed

theorem change_domain_symmetric_witness:
  "metric_values (\<lambda>company. company @ ''_change'') [''A'', ''B'', ''C''] (validData demo_rows) \<noteq> []
   \<and> yDomain ''change'' [''A'', ''B'', ''C''] demo_rows = (Fin (-4), Fin 4)
   \<and> jseq (fst (yDomain ''change'' [''A'', ''B'', ''C''] demo_rows))
          (jneg (snd (yDomain ''change'' [''A'', ''B'', ''C''] demo_rows)))"
proof -
  have ne: "metric_values (\<lambda>company. company @ ''_change'') [''A'', ''B'', ''C''] (validData demo_rows) \<noteq> []"
    by (simp add: demo_change_values)
  have d: "yDomain ''change'' [''A'', ''B'', ''C''] demo_rows = (Fin (-4), Fin 4)"
    by (simp add: yDomain_def demo_change_values Math_min_def Math_max_def)
  from change_domain_symmetric [OF ne] ne d show ?thesis by simp
qed

text \<open>
  C5 (as stated, refuted): a dataset with a valid row and a non-empty visible list can
  still have no value to take a minimum of. The dataset the generator returns for an
  empty company list (what the initial load of Chart stores, since its callback still
  sees the empty \<^verbatim>\<open>companies\<close> state) has valid rows that carry only a date; with the
  five companies visible the value list is empty and the price domain is
  \<^verbatim>\<open>[Infinity, -Infinity]\<close>.
\<close>

theorem price_domain_without_values:
  "\<not> isl (generateStockData env0 2 [] ''month'')
   \<and> length (validData (projr (generateStockData env0 2 [] ''month''))) = 2
   \<and> [''Apple'', ''Google'', ''Amazon'', ''Microsoft'', ''Tesla''] \<noteq> []
   \<and> metric_values (\<lambda>company. company)
         [''Apple'', ''Google'', ''Amazon'', ''Microsoft'', ''Tesla'']
         (validData (projr (generateStockData env0 2 [] ''month''))) = []
   \<and> yDomain ''price'' [''Apple'', ''Google'', ''Amazon'', ''Microsoft'', ''Tesla'']
         (projr (generateStockData env0 2 [] ''month'')) = (PInf, NInf)"
proof -
  have g: "generateStockData env0 2 [] ''month''
             = Inr [[''date'' \<mapsto> JDate 1699913600000], [''date'' \<mapsto> JDate 1700000000000]]"
    by (simp add: eval_gen)
  show ?thesis
    unfolding g
    by (simp add: yDomain_def metric_values_def validData_def js_isNaN_def Math_min_def Math_max_def)
qed

text \<open>
  C5 (amended): when the visible entities have at least one non-NaN entry of the selected
  metric in the valid rows, the domain is \<open>[min \<times> 0.9, max \<times> 1.1]\<close> for metric
  \<^verbatim>\<open>price\<close> and \<open>[0, max \<times> 1.1]\<close> for metric \<^verbatim>\<open>volume\<close>, where \<open>min\<close> and \<open>max\<close> are
  the least and the greatest of those entries.
\<close>

theorem price_volume_domain:
  "(metric_values (\<lambda>company. company) visibleCompanies (validData data) \<noteq> [] \<longrightarrow>
      (\<exists>mn mx. least_of (metric_values (\<lambda>company. company) visibleCompanies (validData data)) mn
             \<and> greatest_of (metric_values (\<lambda>company. company) visibleCompanies (validData data)) mx
             \<and> yDomain ''price'' visibleCompanies data = (jmul mn (Fin 0.9), jmul mx (Fin 1.1))))
   \<and> (metric_values (\<lambda>company. company @ ''_volume'') visibleCompanies (validData data) \<noteq> [] \<longrightarrow>
      (\<exists>mx. greatest_of
               (metric_values (\<lambda>company. company @ ''_volume'') visibleCompanies (validData data)) mx
             \<and> yDomain ''volume'' visibleCompanies data = (Fin 0, jmul mx (Fin 1.1))))"
proof (intro conjI impI)
  let ?vs = "metric_values (\<lambda>company. company) visibleCompanies (validData data)"
  assume ne: "?vs \<noteq> []"
  have nn: "\<forall>v \<in> set ?vs. \<not> isNaN v" using metric_values_not_NaN by blast
  have "yDomain ''price'' visibleCompanies data
          = (jmul (Math_min ?vs) (Fin 0.9), jmul (Math_max ?vs) (Fin 1.1))"
    by (simp add: yDomain_def Let_def)
  with Math_min_least[OF ne nn] Math_max_greatest[OF ne nn]
  show "\<exists>mn mx. least_of ?vs mn \<and> greatest_of ?vs mx
          \<and> yDomain ''price'' visibleCompanies data = (jmul mn (Fin 0.9), jmul mx (Fin 1.1))"
    by blast
next
  let ?vs = "metric_values (\<lambda>company. company @ ''_volume'') visibleCompanies (validData data)"
  assume ne: "?vs \<noteq> []"
  have nn: "\<forall>v \<in> set ?vs. \<not> isNaN v" using metric_values_not_NaN by blast
  have "yDomain ''volume'' visibleCompanies data = (Fin 0, jmul (Math_max ?vs) (Fin 1.1))"
    by (simp add: yDomain_def Let_def)
  with Math_max_greatest[OF ne nn]
  show "\<exists>mx. greatest_of ?vs mx
          \<and> yDomain ''volume'' visibleCompanies data = (Fin 0, jmul mx (Fin 1.1))"
    by blast
qed

theorem price_volume_domain_witness:
  "metric_values (\<lambda>company. company) [''A'', ''B'', ''C''] (validData demo_rows) \<noteq> []
   \<and> metric_values (\<lambda>company. company @ ''_volume'') [''A'', ''B'', ''C''] (validData demo_rows) \<noteq> []
   \<and> yDomain ''price'' [''A'', ''B'', ''C''] demo_rows = (Fin 9, Fin 22)
   \<and> yDomain ''volume'' [''A'', ''B'', ''C''] demo_rows = (Fin 0, Fin 990)
   \<and> (\<exists>mx. greatest_of
              (metric_values (\<lambda>company. company @ ''_volume'') [''A'', ''B'', ''C''] (validData demo_rows)) mx
            \<and> yDomain ''volume'' [''A'', ''B'', ''C''] demo_rows = (Fin 0, jmul mx (Fin 1.1)))"
proof -
  have p: "metric_values (\<lambda>company. company) [''A'', ''B'', ''C''] (validData demo_rows) \<noteq> []"
    by (simp add: demo_price_values)
  have v: "metric_values (\<lambda>company. company @ ''_volume'') [''A'', ''B'', ''C''] (validData demo_rows) \<noteq> []"
    by (simp add: demo_volume_values)
  have dp: "yDomain ''price'' [''A'', ''B'', ''C''] demo_rows = (Fin 9, Fin 22)"
    by (simp add: yDomain_def demo_price_values Math_min_def Math_max_def)
  have dv: "yDomain ''volume'' [''A'', ''B'', ''C''] demo_rows = (Fin 0, Fin 990)"
    by (simp add: yDomain_def demo_volume_values Math_max_def)
  from price_volume_domain [of "[''A'', ''B'', ''C'']" demo_rows] p v dp dv
  show ?thesis by blast
qed

section \<open>Dates of the generated points\<close>

lemma setHours_back: "setHours e t (getHours e t - back) = TimeClip (t - back * msPerHour)"
proof -
  define l where "l = t + tza e"
  define q where "q = l div msPerHour"
  define r where "r = l mod msPerHour"
  have d: "l div msPerDay = q div 24"
    by (simp add: q_def msPerDay_def msPerHour_def zdiv_zmult2_eq[of 24 l 3600000, symmetric])
  have l: "l = q * msPerHour + r"
    by (simp add: q_def r_def)
  have "(q div 24) * msPerDay + ((q mod 24 - back) * msPerHour + r)
          = q * msPerHour - back * msPerHour + r"
    unfolding msPerDay_def msPerHour_def by presburger
  also have "\<dots> = l - back * msPerHour"
    using l by simp
  finally have "(l div msPerDay) * msPerDay + ((q mod 24 - back) * msPerHour + r) - tza e
                  = t - back * msPerHour"
    unfolding d by (simp add: l_def)
  then show ?thesis
    by (simp add: setHours_def getHours_def Let_def l_def q_def r_def)
qed

lemma setDate_back: "setDate e t (getDate e t - back) = TimeClip (t - back * msPerDay)"
proof -
  define l where "l = t + tza e"
  have "(l div msPerDay - back) * msPerDay + l mod msPerDay = l - back * msPerDay"
    by (simp add: algebra_simps)
  then show ?thesis
    by (simp add: setDate_def getDate_def Let_def l_def algebra_simps)
qed

lemma point_date_eq: "point_date e timeRange back = TimeClip (now e - back * time_unit timeRange)"
  by (simp add: point_date_def time_unit_def setHours_back setDate_back)

lemma time_unit_pos: "0 < time_unit timeRange"
  by (simp add: time_unit_def msPerHour_def msPerDay_def)

lemma time_unit_le_day: "time_unit timeRange \<le> msPerDay"
  by (simp add: time_unit_def msPerHour_def msPerDay_def)

lemma point_date_Some:
  "point_date e timeRange back = Some t \<Longrightarrow> t = now e - back * time_unit timeRange"
  by (simp add: point_date_eq TimeClip_def split: if_splits)

lemma in_range_between2:
  assumes "\<bar>t\<bar> \<le> (M::int)" "\<bar>t - (int n - 1) * U\<bar> \<le> M" "0 < u" "u \<le> U" "j < n"
  shows "\<bar>t - (int n - int j - 1) * u\<bar> \<le> M"
proof -
  have "0 \<le> (int n - int j - 1) * u" using assms by simp
  moreover have "(int n - int j - 1) * u \<le> (int n - 1) * U"
    using assms by (intro mult_mono) simp_all
  ultimately show ?thesis using assms(1,2) by linarith
qed

lemma dates_valid2:
  assumes "\<bar>now e\<bar> \<le> 8640000000000000"
      and "\<bar>now e - (int numPoints - 1) * msPerDay\<bar> \<le> 8640000000000000"
  shows "\<forall>j < numPoints. point_date e timeRange (int numPoints - int j - 1) \<noteq> None"
    and "\<forall>j < numPoints. setDate e (now e) (getDate e (now e) - (int numPoints - int j - 1))
                            = Some (now e - (int numPoints - int j - 1) * msPerDay)"
proof -
  show "\<forall>j < numPoints. point_date e timeRange (int numPoints - int j - 1) \<noteq> None"
    using in_range_between2[OF assms time_unit_pos time_unit_le_day]
    by (simp add: point_date_eq TimeClip_def)
  have "(0::int) < msPerDay" by (simp add: msPerDay_def)
  from in_range_between2[OF assms this order_refl]
  show "\<forall>j < numPoints. setDate e (now e) (getDate e (now e) - (int numPoints - int j - 1))
                            = Some (now e - (int numPoints - int j - 1) * msPerDay)"
    by (simp add: setDate_back TimeClip_def)
qed

lemma timestamps_of_dates:
  assumes "length data = n"
      and "\<forall>j < n. (data ! j) ''date'' = Some (JDate (t - (int n - int j - 1) * u))"
  shows "timestamps data = map Some (back_times t u n)"
  using assms by (auto simp: timestamps_def back_times_def list_eq_iff_nth_eq algebra_simps)

lemma back_times_increasing: "0 < unit \<Longrightarrow> strictly_increasing (map Some (back_times t unit n))"
  by (auto simp: strictly_increasing_def back_times_def sorted_wrt_map sorted_wrt_iff_nth_less)

lemma back_times_spaced: "spaced unit (map Some (back_times t unit n))"
  by (simp add: spaced_def back_times_def algebra_simps)

section \<open>The company loop\<close>

lemma update_companies_other:
  "x \<notin> set cs \<Longrightarrow> \<forall>c \<in> set cs. x \<noteq> c @ ''_change'' \<and> x \<noteq> c @ ''_volume''
     \<Longrightarrow> fst (update_companies rnd m prev cs k dataPoint) x = dataPoint x"
  by (induction cs arbitrary: k dataPoint) (simp_all add: Let_def)

lemma date_not_derived_key: "''date'' \<noteq> c @ ''_change'' \<and> ''date'' \<noteq> c @ ''_volume''"
proof -
  have "length (c @ ''_change'') \<noteq> length ''date''" "length (c @ ''_volume'') \<noteq> length ''date''"
    by simp_all
  then show ?thesis by metis
qed

lemma update_companies_date:
  "''date'' \<notin> set cs \<Longrightarrow> fst (update_companies rnd m prev cs k dataPoint) ''date'' = dataPoint ''date''"
  using date_not_derived_key by (intro update_companies_other) blast+







lemma update_companies_lib_other:
  "x \<notin> set cs \<Longrightarrow> fst (update_companies_lib rnd prev cs k dataPoint) x = dataPoint x"
  by (induction cs arbitrary: k dataPoint) (simp_all add: Let_def)



section \<open>The point loop\<close>

text \<open>
  An invariant rule for the loop: when every date is valid, the loop returns a dataset of
  the requested length, and a property that holds of the points pushed so far and is
  preserved by pushing one more point holds of the result.
\<close>

lemma gen_loop_rule:
  assumes inv: "P data"
      and len: "length data = i" "i \<le> numPoints"
      and dates: "\<forall>j < numPoints. point_date e timeRange (int numPoints - int j - 1) \<noteq> None"
      and step: "\<And>i k data t. i < numPoints \<Longrightarrow> length data = i \<Longrightarrow> P data
                   \<Longrightarrow> point_date e timeRange (int numPoints - int i - 1) = Some t
                   \<Longrightarrow> P (data @ [fst (update_companies (random e) (rangeMultiplier timeRange)
                                         (if i = 0 then iv else data ! (i - 1)) companies k
                                         [''date'' \<mapsto> JDate t])])"
  shows "\<exists>res. gen_loop e numPoints companies timeRange iv i k data = Inr res
               \<and> P res \<and> length res = numPoints"
  using inv len
proof (induction "numPoints - i" arbitrary: i k data)
  case 0
  then have "\<not> i < numPoints" by simp
  with 0 show ?case by (simp add: gen_loop.simps)
next
  case (Suc d)
  then have lt: "i < numPoints" by simp
  with dates obtain t where t: "point_date e timeRange (int numPoints - int i - 1) = Some t"
    by blast
  let ?prev = "if i = 0 then iv else data ! (i - 1)"
  let ?step = "update_companies (random e) (rangeMultiplier timeRange) ?prev companies k
                 [''date'' \<mapsto> JDate t]"
  have iso: "toISOString (point_date e timeRange (int numPoints - int i - 1)) = Inr (JDate t)"
    by (simp add: t toISOString_def)
  have guard: "\<not> (i \<noteq> 0 \<and> length data \<le> i - 1)"
    using Suc.prems(2) by (cases data) auto
  have P': "P (data @ [fst ?step])"
    using lt Suc.prems(2) Suc.prems(1) t by (rule step)
  have d: "d = numPoints - (i + 1)" using Suc.hyps(2) by simp
  have "\<exists>res. gen_loop e numPoints companies timeRange iv (i + 1) (snd ?step) (data @ [fst ?step]) = Inr res
             \<and> P res \<and> length res = numPoints"
    using Suc.hyps(1)[OF d P'] Suc.prems(2) lt by simp
  then show ?case
    using lt iso guard by (subst gen_loop.simps) (simp add: Let_def)
qed


lemma gen_loop_lib_rule:
  assumes inv: "P data"
      and len: "length data = i" "i \<le> numPoints"
      and dates: "\<forall>j < numPoints. setDate e (now e) (getDate e (now e) - (int numPoints - int j - 1)) \<noteq> None"
      and step: "\<And>i k data t. i < numPoints \<Longrightarrow> length data = i \<Longrightarrow> P data
                   \<Longrightarrow> setDate e (now e) (getDate e (now e) - (int numPoints - int i - 1)) = Some t
                   \<Longrightarrow> P (data @ [fst (update_companies_lib (random e)
                                         (if i = 0 then iv else data ! (i - 1)) companies k
                                         [''date'' \<mapsto> JDate t])])"
  shows "\<exists>res. gen_loop_lib e numPoints companies iv i k data = Inr res
               \<and> P res \<and> length res = numPoints"
  using inv len
proof (induction "numPoints - i" arbitrary: i k data)
  case 0
  then have "\<not> i < numPoints" by simp
  with 0 show ?case by (simp add: gen_loop_lib.simps)
next
  case (Suc d)
  then have lt: "i < numPoints" by simp
  with dates obtain t
    where t: "setDate e (now e) (getDate e (now e) - (int numPoints - int i - 1)) = Some t"
    by blast
  let ?prev = "if i = 0 then iv else data ! (i - 1)"
  let ?step = "update_companies_lib (random e) ?prev companies k [''date'' \<mapsto> JDate t]"
  have iso: "toISOString (setDate e (now e) (getDate e (now e) - (int numPoints - int i - 1)))
               = Inr (JDate t)"
    by (simp add: t toISOString_def)
  have guard: "\<not> (i \<noteq> 0 \<and> length data \<le> i - 1)"
    using Suc.prems(2) by (cases data) auto
  have P': "P (data @ [fst ?step])"
    using lt Suc.prems(2) Suc.prems(1) t by (rule step)
  have d: "d = numPoints - (i + 1)" using Suc.hyps(2) by simp
  have "\<exists>res. gen_loop_lib e numPoints companies iv (i + 1) (snd ?step) (data @ [fst ?step]) = Inr res
             \<and> P res \<and> length res = numPoints"
    using Suc.hyps(1)[OF d P'] Suc.prems(2) lt by simp
  then show ?case
    using lt iso guard by (subst gen_loop_lib.simps) (auto simp: Let_def)
qed


lemma generated_dates:
  assumes "''date'' \<notin> set companies"
      and "\<bar>now e\<bar> \<le> 8640000000000000"
      and "\<bar>now e - (int numPoints - 1) * msPerDay\<bar> \<le> 8640000000000000"
  shows "\<exists>data. generateStockData e numPoints companies timeRange = Inr data
               \<and> length data = numPoints
               \<and> timestamps data = map Some (back_times (now e) (time_unit timeRange) numPoints)"
proof -
  let ?u = "time_unit timeRange"
  let ?P = "\<lambda>data :: row list. \<forall>j < length data.
              (data ! j) ''date'' = Some (JDate (now e - (int numPoints - int j - 1) * ?u))"
  let ?iv = "fst (initialValues (random e) companies 0 Map.empty)"
  let ?k = "snd (initialValues (random e) companies 0 Map.empty)"
  have "\<exists>res. gen_loop e numPoints companies timeRange ?iv 0 ?k [] = Inr res
               \<and> ?P res \<and> length res = numPoints"
  proof (rule gen_loop_rule[where P = ?P])
    show "?P []" by simp
    show "length ([] :: row list) = 0" by simp
    show "0 \<le> numPoints" by simp
    show "\<forall>j < numPoints. point_date e timeRange (int numPoints - int j - 1) \<noteq> None"
      by (rule dates_valid2(1)[OF assms(2,3)])
  next
    fix i k and data :: "row list" and t
    assume i: "i < numPoints" and len: "length data = i" and P: "?P data"
       and t: "point_date e timeRange (int numPoints - int i - 1) = Some t"
    have t': "t = now e - (int numPoints - int i - 1) * ?u"
      using point_date_Some[OF t] .
    show "?P (data @ [fst (update_companies (random e) (rangeMultiplier timeRange)
                             (if i = 0 then ?iv else data ! (i - 1)) companies k
                             [''date'' \<mapsto> JDate t])])"
      using P len t' by (auto simp: nth_append update_companies_date[OF assms(1)] less_Suc_eq)
  qed
  then obtain res where res: "generateStockData e numPoints companies timeRange = Inr res"
      and P: "?P res" and len: "length res = numPoints"
    by (auto simp: generateStockData_def Let_def)
  from timestamps_of_dates[OF len] P len res show ?thesis by auto
qed

lemma generated_lib_dates:
  assumes "''date'' \<notin> set companies"
      and "\<bar>now e\<bar> \<le> 8640000000000000"
      and "\<bar>now e - (int numPoints - 1) * msPerDay\<bar> \<le> 8640000000000000"
  shows "\<exists>data. generateStockData_lib e numPoints companies = Inr data
               \<and> length data = numPoints
               \<and> timestamps data = map Some (back_times (now e) msPerDay numPoints)"
proof -
  let ?P = "\<lambda>data :: row list. \<forall>j < length data.
              (data ! j) ''date'' = Some (JDate (now e - (int numPoints - int j - 1) * msPerDay))"
  let ?iv = "fst (initialValues (random e) companies 0 Map.empty)"
  let ?k = "snd (initialValues (random e) companies 0 Map.empty)"
  note dates = dates_valid2(2)[OF assms(2,3)]
  have "\<exists>res. gen_loop_lib e numPoints companies ?iv 0 ?k [] = Inr res
               \<and> ?P res \<and> length res = numPoints"
  proof (rule gen_loop_lib_rule[where P = ?P])
    show "?P []" by simp
    show "length ([] :: row list) = 0" by simp
    show "0 \<le> numPoints" by simp
    show "\<forall>j < numPoints.
            setDate e (now e) (getDate e (now e) - (int numPoints - int j - 1)) \<noteq> None"
      using dates by simp
  next
    fix i k and data :: "row list" and t
    assume i: "i < numPoints" and len: "length data = i" and P: "?P data"
       and t: "setDate e (now e) (getDate e (now e) - (int numPoints - int i - 1)) = Some t"
    have t': "t = now e - (int numPoints - int i - 1) * msPerDay"
      using dates i t by simp
    show "?P (data @ [fst (update_companies_lib (random e)
                             (if i = 0 then ?iv else data ! (i - 1)) companies k
                             [''date'' \<mapsto> JDate t])])"
      using P len t' by (auto simp: nth_append update_companies_lib_other[OF assms(1)] less_Suc_eq)
  qed
  then obtain res where res: "generateStockData_lib e numPoints companies = Inr res"
      and P: "?P res" and len: "length res = numPoints"
    by (auto simp: generateStockData_lib_def Let_def)
  from timestamps_of_dates[OF len] P len res show ?thesis by auto
qed



section \<open>Evaluating the generator on examples\<close>



section \<open>Length and timestamps of a generated dataset\<close>

text \<open>
  C2 (as stated, refuted): the claim fails for an entity list that contains the name
  \<^verbatim>\<open>date\<close>: the company loop then overwrites the date of each point with that
  entity's price, and with every draw 0 the two instants are 90 ms and 81 ms after the
  epoch, in decreasing order. It also fails for a point count whose first date lies
  outside the range of \<^verbatim>\<open>Date\<close>: \<^verbatim>\<open>toISOString\<close> throws and no dataset is returned.
\<close>

theorem date_entity_overwrites_timestamp:
  "\<not> isl (generateStockData env0 2 [''date''] ''month'')
   \<and> timestamps (projr (generateStockData env0 2 [''date''] ''month'')) = [Some 90, Some 81]
   \<and> \<not> strictly_increasing (timestamps (projr (generateStockData env0 2 [''date''] ''month'')))
   \<and> generateStockData env0 200000000 [] ''month'' = Inl RangeError"
proof -
  have t: "timestamps (projr (generateStockData env0 2 [''date''] ''month'')) = [Some 90, Some 81]"
    by (simp add: eval_gen)
  have "\<not> isl (generateStockData env0 2 [''date''] ''month'')"
    by (simp add: eval_gen)
  moreover have "generateStockData env0 200000000 [] ''month'' = Inl RangeError"
    by (simp add: eval_gen)
  ultimately show ?thesis unfolding t by (simp add: strictly_increasing_def)
qed

text \<open>
  C2 (amended): with a constant offset of local time from UTC, for every point count
  \<open>n \<ge> 1\<close> whose earliest date, \<open>n - 1\<close> days before now, is within the range of
  \<^verbatim>\<open>Date\<close>, every entity list that does not contain the name \<^verbatim>\<open>date\<close>, and every time
  range, the generator returns a dataset of length exactly \<open>n\<close> whose timestamps are
  strictly increasing; consecutive points are one hour apart for the range \<^verbatim>\<open>day\<close>
  and one day apart otherwise. The same holds, with steps of one day, for the generator
  of lib/data-generator.js.
\<close>

theorem generated_length_timestamps:
  assumes "1 \<le> numPoints"
      and "''date'' \<notin> set companies"
      and "\<bar>now e\<bar> \<le> 8640000000000000"
      and "\<bar>now e - (int numPoints - 1) * msPerDay\<bar> \<le> 8640000000000000"
  shows "(\<exists>data. generateStockData e numPoints companies timeRange = Inr data
               \<and> length data = numPoints
               \<and> strictly_increasing (timestamps data)
               \<and> spaced (if timeRange = ''day'' then 3600000 else 86400000) (timestamps data))
       \<and> (\<exists>data. generateStockData_lib e numPoints companies = Inr data
               \<and> length data = numPoints
               \<and> strictly_increasing (timestamps data)
               \<and> spaced 86400000 (timestamps data))"
proof
  from generated_dates[OF assms(2-4), of timeRange]
  obtain data where d: "generateStockData e numPoints companies timeRange = Inr data"
      "length data = numPoints"
      "timestamps data = map Some (back_times (now e) (time_unit timeRange) numPoints)"
    by blast
  have u: "time_unit timeRange = (if timeRange = ''day'' then 3600000 else 86400000)"
    by (simp add: time_unit_def msPerHour_def msPerDay_def)
  show "\<exists>data. generateStockData e numPoints companies timeRange = Inr data
               \<and> length data = numPoints
               \<and> strictly_increasing (timestamps data)
               \<and> spaced (if timeRange = ''day'' then 3600000 else 86400000) (timestamps data)"
    using d back_times_increasing[OF time_unit_pos, of "now e" timeRange numPoints]
      back_times_spaced[of "time_unit timeRange" "now e" numPoints]
    unfolding u by auto
next
  from generated_lib_dates[OF assms(2-4)]
  obtain data where d: "generateStockData_lib e numPoints companies = Inr data"
      "length data = numPoints"
      "timestamps data = map Some (back_times (now e) msPerDay numPoints)"
    by blast
  have u: "msPerDay = 86400000" by (simp add: msPerDay_def)
  have "(0::int) < msPerDay" by (simp add: msPerDay_def)
  from d back_times_increasing[OF this, of "now e" numPoints]
    back_times_spaced[of msPerDay "now e" numPoints]
  show "\<exists>data. generateStockData_lib e numPoints companies = Inr data
               \<and> length data = numPoints
               \<and> strictly_increasing (timestamps data)
               \<and> spaced 86400000 (timestamps data)"
    unfolding u by auto
qed

theorem generated_length_timestamps_witness:
  "1 \<le> (3::nat) \<and> ''date'' \<notin> set [''A'', ''B'']
   \<and> \<bar>now env1\<bar> \<le> 8640000000000000
   \<and> \<bar>now env1 - (int 3 - 1) * msPerDay\<bar> \<le> 8640000000000000
   \<and> timestamps (projr (generateStockData env1 3 [''A'', ''B''] ''day''))
       = [Some 1699992800000, Some 1699996400000, Some 1700000000000]
   \<and> (\<exists>data. generateStockData env1 3 [''A'', ''B''] ''day'' = Inr data
          \<and> length data = 3
          \<and> strictly_increasing (timestamps data)
          \<and> spaced 3600000 (timestamps data))"
proof -
  have h: "1 \<le> (3::nat)" "''date'' \<notin> set [''A'', ''B'']"
    "\<bar>now env1\<bar> \<le> 8640000000000000"
    "\<bar>now env1 - (int 3 - 1) * msPerDay\<bar> \<le> 8640000000000000"
    by (simp_all add: env1_def msPerDay_def)
  have t: "timestamps (projr (generateStockData env1 3 [''A'', ''B''] ''day''))
             = [Some 1699992800000, Some 1699996400000, Some 1700000000000]"
    by (simp add: eval_gen)
  from generated_length_timestamps[OF h, of "''day''"] h t show ?thesis by simp
qed

section \<open>The random walk of the prices\<close>







section \<open>The scale factor stays in its extent\<close>

lemma identity_within: "in_extent (scaleExtent c) (tk zoomIdentity)"
  by (cases c) (simp_all add: in_extent_def scaleExtent_def zoomIdentity_def)

lemma extent_ordered: "fst (scaleExtent c) \<le> snd (scaleExtent c)"
  by (cases c) (simp_all add: scaleExtent_def)

lemma zoom_gesture_within:
  "in_extent (scaleExtent c) (tk t) \<Longrightarrow> in_extent (scaleExtent c) (tk (zoom_gesture c t g))"
  using extent_ordered[of c] identity_within[of c]
  by (cases g) (auto simp: in_extent_def)

lemma foldl_within:
  "in_extent (scaleExtent c) (tk t) \<Longrightarrow> in_extent (scaleExtent c) (tk (foldl (zoom_gesture c) t gs))"
  by (induction gs arbitrary: t) (simp_all add: zoom_gesture_within)

text \<open>
  C7 (as stated, refuted): the extent of Chart.jsx is \<open>[0.5, 20]\<close>, neither \<open>[0.8, 4]\<close>
  nor \<open>[1, 5]\<close>, and a request for the factor 10 is accepted there as it is.
\<close>

theorem zoom_extent_counterexample:
  "scaleExtent Chart_jsx \<noteq> (0.8, 4) \<and> scaleExtent Chart_jsx \<noteq> (1, 5)
   \<and> tk (zoom_run Chart_jsx [Scale 10 0 0]) = 10
   \<and> \<not> in_extent (0.8, 4) 10 \<and> \<not> in_extent (1, 5) 10"
  by (simp add: zoom_run_def scaleExtent_def in_extent_def)

text \<open>
  C7 (amended): in every chart variant the scale factor of every transform reachable by
  gestures and resets lies in the variant's configured extent, which is \<open>[0.5, 20]\<close> in
  Chart.jsx, \<open>[0.8, 4]\<close> in the variant with the reset button and \<open>[1, 5]\<close> in
  StockChart.
\<close>

theorem zoom_scale_clamped:
  "in_extent (scaleExtent c) (tk (zoom_run c gs))
   \<and> scaleExtent Chart_jsx = (0.5, 20)
   \<and> scaleExtent Chart_part_003 = (0.8, 4)
   \<and> scaleExtent StockChart_part_002 = (1, 5)"
proof -
  have "in_extent (scaleExtent c) (tk (zoom_run c gs))"
    unfolding zoom_run_def by (rule foldl_within) (rule identity_within)
  then show ?thesis by (simp add: scaleExtent_def)
qed

section \<open>The zoom handler leaves the static scales alone\<close>

lemma rescale_frame:
  assumes "a < fresh s"
  shows "heap (snd (rescale d t r s)) a = heap s a"
    and "fresh s \<le> fresh (snd (rescale d t r s))"
    and "x_scale (snd (rescale d t r s)) = x_scale s"
    and "y_scale (snd (rescale d t r s)) = y_scale s"
  using assms by (auto simp: rescale_def split: option.splits)

lemma zoom_handler_frame:
  assumes "allocated s"
  shows "static_scales (zoom_handler domX domY c s t) = static_scales s
         \<and> allocated (zoom_handler domX domY c s t)"
proof -
  from assms have x: "x_scale s < fresh s" and y: "y_scale s < fresh s"
    by (simp_all add: allocated_def)
  show ?thesis
  proof (cases c)
    case Chart_jsx
    obtain newX s1 where r1: "rescale domX t (x_scale s) s = (newX, s1)" by force
    obtain newY s2 where r2: "rescale domY t (y_scale s1) s1 = (newY, s2)" by force
    have s1: "s1 = snd (rescale domX t (x_scale s) s)" using r1 by simp
    have s2: "s2 = snd (rescale domY t (y_scale s1) s1)" using r2 by simp
    have f1: "fresh s \<le> fresh s1" "x_scale s1 = x_scale s" "y_scale s1 = y_scale s"
      "heap s1 (x_scale s) = heap s (x_scale s)" "heap s1 (y_scale s) = heap s (y_scale s)"
      unfolding s1 using rescale_frame[OF x] rescale_frame[OF y] by simp_all
    have x1: "x_scale s < fresh s1" and y1: "y_scale s < fresh s1" using f1 x y by simp_all
    have f2: "fresh s1 \<le> fresh s2" "x_scale s2 = x_scale s1" "y_scale s2 = y_scale s1"
      "heap s2 (x_scale s) = heap s1 (x_scale s)" "heap s2 (y_scale s) = heap s1 (y_scale s)"
      unfolding s2 using rescale_frame[OF x1] rescale_frame[OF y1] by simp_all
    show ?thesis
      using Chart_jsx r1 r2 f1 f2 x y
      by (simp add: zoom_handler_def static_scales_def allocated_def)
  next
    case Chart_part_003
    let ?s0 = "s \<lparr> group_transform := Some t \<rparr>"
    have x0: "x_scale ?s0 < fresh ?s0" and y0: "y_scale ?s0 < fresh ?s0" using x y by simp_all
    obtain newX s1 where r1: "rescale domX t (x_scale s) ?s0 = (newX, s1)" by force
    obtain newY s2 where r2: "rescale domY t (y_scale s1) s1 = (newY, s2)" by force
    have s1: "s1 = snd (rescale domX t (x_scale s) ?s0)" using r1 by simp
    have s2: "s2 = snd (rescale domY t (y_scale s1) s1)" using r2 by simp
    have f1: "fresh s \<le> fresh s1" "x_scale s1 = x_scale s" "y_scale s1 = y_scale s"
      "heap s1 (x_scale s) = heap s (x_scale s)" "heap s1 (y_scale s) = heap s (y_scale s)"
      unfolding s1 using rescale_frame[OF x0] rescale_frame[OF y0] by simp_all
    have x1: "x_scale s < fresh s1" and y1: "y_scale s < fresh s1" using f1 x y by simp_all
    have f2: "fresh s1 \<le> fresh s2" "x_scale s2 = x_scale s1" "y_scale s2 = y_scale s1"
      "heap s2 (x_scale s) = heap s1 (x_scale s)" "heap s2 (y_scale s) = heap s1 (y_scale s)"
      unfolding s2 using rescale_frame[OF x1] rescale_frame[OF y1] by simp_all
    show ?thesis
      using Chart_part_003 r1 r2 f1 f2 x y
      by (simp add: zoom_handler_def static_scales_def allocated_def)
  next
    case StockChart_part_002
    obtain newX s1 where r1: "rescale domX t (x_scale s) s = (newX, s1)" by force
    have s1: "s1 = snd (rescale domX t (x_scale s) s)" using r1 by simp
    have f1: "fresh s \<le> fresh s1" "x_scale s1 = x_scale s" "y_scale s1 = y_scale s"
      "heap s1 (x_scale s) = heap s (x_scale s)" "heap s1 (y_scale s) = heap s (y_scale s)"
      unfolding s1 using rescale_frame[OF x] rescale_frame[OF y] by simp_all
    show ?thesis
      using StockChart_part_002 r1 f1 x y
      by (simp add: zoom_handler_def static_scales_def allocated_def)
  qed
qed

text \<open>
  C8: for every chart variant and every sequence of zoom events, the static scale pair
  (the scales \<^verbatim>\<open>x\<close> and \<^verbatim>\<open>y\<close> of the render effect, with their domains and ranges)
  is the same after the handler has run for each event: the handler only allocates
  rescaled copies.
\<close>

theorem zoom_keeps_static_scales:
  assumes "allocated s"
  shows "static_scales (foldl (zoom_handler domX domY c) s ts) = static_scales s"
  using assms
proof (induction ts arbitrary: s)
  case Nil
  then show ?case by simp
next
  case (Cons t ts)
  from zoom_handler_frame[OF Cons.prems, of domX domY c t]
  have "static_scales (zoom_handler domX domY c s t) = static_scales s"
    and "allocated (zoom_handler domX domY c s t)" by simp_all
  with Cons.IH[of "zoom_handler domX domY c s t"] show ?case by simp
qed

theorem zoom_keeps_static_scales_witness:
  "\<forall>domX domY.
     allocated scene0
     \<and> static_scales
         (foldl (zoom_handler domX domY Chart_part_003) scene0
            [\<lparr> tk = 2, tx = - 100, ty = - 50 \<rparr>, \<lparr> tk = 4, tx = - 300, ty = 0 \<rparr>])
       = (0, Some \<lparr> dom = (Fin 0, Fin 86400000), rng = (0, 600) \<rparr>,
          1, Some \<lparr> dom = (Fin 90, Fin 550), rng = (260, 0) \<rparr>)
     \<and> xAxis_scale
         (foldl (zoom_handler domX domY Chart_part_003) scene0
            [\<lparr> tk = 2, tx = - 100, ty = - 50 \<rparr>, \<lparr> tk = 4, tx = - 300, ty = 0 \<rparr>]) = 4"
proof (intro allI)
  fix domX domY
  have a: "allocated scene0" by (simp add: allocated_def scene0_def)
  have s: "static_scales scene0
             = (0, Some \<lparr> dom = (Fin 0, Fin 86400000), rng = (0, 600) \<rparr>,
                1, Some \<lparr> dom = (Fin 90, Fin 550), rng = (260, 0) \<rparr>)"
    by (simp add: static_scales_def scene0_def)
  have x: "xAxis_scale
         (foldl (zoom_handler domX domY Chart_part_003) scene0
            [\<lparr> tk = 2, tx = - 100, ty = - 50 \<rparr>, \<lparr> tk = 4, tx = - 300, ty = 0 \<rparr>]) = 4"
    by (simp add: zoom_handler_def rescale_def scene0_def)
  from zoom_keeps_static_scales[OF a, of domX domY Chart_part_003
         "[\<lparr> tk = 2, tx = - 100, ty = - 50 \<rparr>, \<lparr> tk = 4, tx = - 300, ty = 0 \<rparr>]"] a x
  show "allocated scene0
     \<and> static_scales
         (foldl (zoom_handler domX domY Chart_part_003) scene0
            [\<lparr> tk = 2, tx = - 100, ty = - 50 \<rparr>, \<lparr> tk = 4, tx = - 300, ty = 0 \<rparr>])
       = (0, Some \<lparr> dom = (Fin 0, Fin 86400000), rng = (0, 600) \<rparr>,
          1, Some \<lparr> dom = (Fin 90, Fin 550), rng = (260, 0) \<rparr>)
     \<and> xAxis_scale
         (foldl (zoom_handler domX domY Chart_part_003) scene0
            [\<lparr> tk = 2, tx = - 100, ty = - 50 \<rparr>, \<lparr> tk = 4, tx = - 300, ty = 0 \<rparr>]) = 4"
    unfolding s by blast
qed

section \<open>Formatting the tooltip value\<close>

lemma digit_char_props:
  assumes "d < 10"
  shows "is_digit (digit_char d)" "digit_value (digit_char d) = d"
proof -
  from assms have "d \<in> {0,1,2,3,4,5,6,7,8,9}" by auto
  then show "is_digit (digit_char d)" "digit_value (digit_char d) = d"
    by (auto simp: is_digit_def digit_char_def digit_value_def)
qed

lemma digits_nonempty: "digits n \<noteq> []"
  by (subst digits.simps) simp

lemma digits_all: "list_all is_digit (digits n)"
proof (induction n rule: digits.induct)
  case (1 n)
  show ?case
  proof (cases "n < 10")
    case True
    then show ?thesis by (subst digits.simps) (simp add: digit_char_props)
  next
    case False
    with 1 show ?thesis by (subst digits.simps) (simp add: digit_char_props)
  qed
qed

lemma foldl_read:
  "foldl (\<lambda>a c. 10 * a + digit_value c) acc cs = acc * 10 ^ length cs + read_digits cs"
proof (induction cs arbitrary: acc)
  case Nil
  then show ?case by (simp add: read_digits_def)
next
  case (Cons c cs)
  have "foldl (\<lambda>a c. 10 * a + digit_value c) acc (c # cs)
          = (10 * acc + digit_value c) * 10 ^ length cs + read_digits cs"
    using Cons[of "10 * acc + digit_value c"] by simp
  moreover have "read_digits (c # cs) = digit_value c * 10 ^ length cs + read_digits cs"
    using Cons[of "digit_value c"] by (simp add: read_digits_def)
  ultimately show ?case by (simp add: algebra_simps)
qed

lemma read_digits_append:
  "read_digits (a @ b) = read_digits a * 10 ^ length b + read_digits b"
  using foldl_read[of "read_digits a" b] by (simp add: read_digits_def)

lemma read_digits_digits: "read_digits (digits n) = n"
proof (induction n rule: digits.induct)
  case (1 n)
  show ?case
  proof (cases "n < 10")
    case True
    then show ?thesis
      by (subst digits.simps) (simp add: read_digits_def digit_char_props)
  next
    case False
    have "read_digits [digit_char (n mod 10)] = n mod 10"
      by (simp add: read_digits_def digit_char_props)
    with 1 False show ?thesis
      by (subst digits.simps) (simp add: read_digits_append)
  qed
qed

lemma read_digits_zeros: "read_digits (replicate k (CHR ''0'') @ m) = read_digits m"
proof -
  have z: "read_digits (replicate k (CHR ''0'')) = 0"
    by (induction k) (simp_all add: read_digits_def digit_value_def)
  show ?thesis by (simp add: read_digits_append z)
qed

lemma round_half:
  assumes "0 \<le> (y::real)"
  shows "\<bar>real (nat \<lfloor>y + 1 / 2\<rfloor>) - y\<bar> \<le> 1 / 2"
proof -
  have "0 \<le> \<lfloor>y + 1 / 2\<rfloor>" using assms by simp
  then have "real (nat \<lfloor>y + 1 / 2\<rfloor>) = of_int \<lfloor>y + 1 / 2\<rfloor>" by simp
  then show ?thesis by linarith
qed

lemma toFixed_shape:
  assumes "\<bar>r\<bar> < 10 ^ 21" "0 < f"
  shows "\<exists>a b. toFixed bigToString f (Fin r) = (if r < 0 then ''-'' else []) @ a @ ''.'' @ b
               \<and> a \<noteq> [] \<and> length b = f \<and> list_all is_digit (a @ b)
               \<and> \<bar>real (read_digits (a @ b)) / 10 ^ f - \<bar>r\<bar>\<bar> \<le> 1 / (2 * 10 ^ f)"
proof -
  define n where "n = nat \<lfloor>\<bar>r\<bar> * 10 ^ f + 1 / 2\<rfloor>"
  define m where "m = replicate (f + 1 - length (digits n)) (CHR ''0'') @ digits n"
  define a where "a = take (length m - f) m"
  define b where "b = drop (length m - f) m"
  have len: "f + 1 \<le> length m" by (simp add: m_def)
  have ab: "a @ b = m" by (simp add: a_def b_def)
  have "toFixed bigToString f (Fin r) = (if r < 0 then ''-'' else []) @ a @ ''.'' @ b"
    using assms by (simp add: toFixed_def Let_def n_def m_def a_def b_def)
  moreover have "a \<noteq> []" using len by (auto simp: a_def)
  moreover have "length b = f" using len by (simp add: b_def)
  moreover have "list_all is_digit (a @ b)"
  proof -
    have "is_digit (CHR ''0'')" by (simp add: is_digit_def)
    then show ?thesis
      unfolding ab m_def using digits_all[of n] by (auto simp: list_all_iff)
  qed
  moreover have "\<bar>real (read_digits (a @ b)) / 10 ^ f - \<bar>r\<bar>\<bar> \<le> 1 / (2 * 10 ^ f)"
  proof -
    have rd: "read_digits (a @ b) = n"
      unfolding ab m_def by (simp add: read_digits_zeros read_digits_digits)
    have "\<bar>real n - \<bar>r\<bar> * 10 ^ f\<bar> \<le> 1 / 2"
      unfolding n_def by (rule round_half) simp
    then have "\<bar>real n - \<bar>r\<bar> * 10 ^ f\<bar> / 10 ^ f \<le> (1 / 2) / 10 ^ f"
      by (intro divide_right_mono) simp_all
    moreover have "\<bar>real n - \<bar>r\<bar> * 10 ^ f\<bar> / 10 ^ f = \<bar>real n / 10 ^ f - \<bar>r\<bar>\<bar>"
    proof -
      have "\<bar>real n - \<bar>r\<bar> * 10 ^ f\<bar> / 10 ^ f = \<bar>(real n - \<bar>r\<bar> * 10 ^ f) / 10 ^ f\<bar>"
        by (simp add: abs_divide)
      also have "(real n - \<bar>r\<bar> * 10 ^ f) / 10 ^ f = real n / 10 ^ f - \<bar>r\<bar>"
        by (simp add: diff_divide_distrib)
      finally show ?thesis .
    qed
    ultimately show ?thesis unfolding rd by simp
  qed
  ultimately show ?thesis by blast
qed

lemma toFixed_Fin:
  assumes "\<bar>r\<bar> < 10 ^ 21" "0 < f"
      and "nat \<lfloor>\<bar>r\<bar> * 10 ^ f + 1 / 2\<rfloor> = n"
      and "replicate (f + 1 - length (digits n)) (CHR ''0'') @ digits n = m"
  shows "toFixed bigToString f (Fin r)
           = (if r < 0 then ''-'' else []) @ take (length m - f) m @ ''.'' @ drop (length m - f) m"
  using assms(1-3) unfolding assms(4)[symmetric] by (simp add: toFixed_def Let_def)

lemma digits_examples:
  "digits 12346 = ''12346''" "digits 256 = ''256''" "digits 26 = ''26''" "digits 31 = ''31''"
  by (simp_all add: digits.simps digit_char_def)

lemma format_examples:
  "formatValue bigToString compactFormat (Fin 123.456) ''price'' = ''$123.46''"
  "formatValue bigToString compactFormat (Fin (- 2.56)) ''change'' = ''-2.6%''"
  "formatValue bigToString compactFormat (Fin (- 2.56)) ''price'' = ''$-2.56''"
  "formatValue bigToString compactFormat (Fin 3.14) ''change'' = ''3.1%''"
proof -
  have "toFixed bigToString 2 (Fin 123.456) = ''123.46''"
    by (subst toFixed_Fin[where n = 12346 and m = "''12346''"]) (simp_all add: digits_examples)
  then show "formatValue bigToString compactFormat (Fin 123.456) ''price'' = ''$123.46''"
    by (simp add: formatValue_def)
  have "toFixed bigToString 1 (Fin (- 2.56)) = ''-2.6''"
    by (subst toFixed_Fin[where n = 26 and m = "''26''"]) (simp_all add: digits_examples)
  then show "formatValue bigToString compactFormat (Fin (- 2.56)) ''change'' = ''-2.6%''"
    by (simp add: formatValue_def)
  have "toFixed bigToString 2 (Fin (- 2.56)) = ''-2.56''"
    by (subst toFixed_Fin[where n = 256 and m = "''256''"]) (simp_all add: digits_examples)
  then show "formatValue bigToString compactFormat (Fin (- 2.56)) ''price'' = ''$-2.56''"
    by (simp add: formatValue_def)
  have "toFixed bigToString 1 (Fin 3.14) = ''3.1''"
    by (subst toFixed_Fin[where n = 31 and m = "''31''"]) (simp_all add: digits_examples)
  then show "formatValue bigToString compactFormat (Fin 3.14) ''change'' = ''3.1%''"
    by (simp add: formatValue_def)
qed

text \<open>
  C9: the formatter depends on the metric. For \<^verbatim>\<open>price\<close> the value 123.456 gives
  exactly \<^verbatim>\<open>$123.46\<close>, and every value below \<open>10^21\<close> in magnitude gives a dollar sign,
  a minus sign if the value is negative, and a decimal numeral with exactly two digits
  after the point that is within half a cent of the magnitude. For \<^verbatim>\<open>volume\<close> the
  result is that of the compact number format. For \<^verbatim>\<open>change\<close> it is a numeral with
  exactly one digit after the point, within 0.05 of the magnitude, preceded by a minus
  sign if the value is negative and followed by a percent sign.
\<close>

theorem tooltip_formatValue:
  assumes "\<bar>x\<bar> < 10 ^ 21"
  shows "formatValue bigToString compactFormat (Fin 123.456) ''price'' = ''$123.46''
       \<and> (\<exists>a b. formatValue bigToString compactFormat (Fin x) ''price''
                    = ''$'' @ (if x < 0 then ''-'' else []) @ a @ ''.'' @ b
                \<and> a \<noteq> [] \<and> length b = 2 \<and> list_all is_digit (a @ b)
                \<and> \<bar>real (read_digits (a @ b)) / 100 - \<bar>x\<bar>\<bar> \<le> 1 / 200)
       \<and> formatValue bigToString compactFormat v ''volume'' = compactFormat v
       \<and> (\<exists>a b. formatValue bigToString compactFormat (Fin x) ''change''
                    = (if x < 0 then ''-'' else []) @ a @ ''.'' @ b @ ''%''
                \<and> a \<noteq> [] \<and> length b = 1 \<and> list_all is_digit (a @ b)
                \<and> \<bar>real (read_digits (a @ b)) / 10 - \<bar>x\<bar>\<bar> \<le> 1 / 20)"
proof (intro conjI)
  show "formatValue bigToString compactFormat (Fin 123.456) ''price'' = ''$123.46''"
    by (rule format_examples)
  show "formatValue bigToString compactFormat v ''volume'' = compactFormat v"
    by (simp add: formatValue_def)
  from toFixed_shape[OF assms, of 2 bigToString]
  show "\<exists>a b. formatValue bigToString compactFormat (Fin x) ''price''
                    = ''$'' @ (if x < 0 then ''-'' else []) @ a @ ''.'' @ b
                \<and> a \<noteq> [] \<and> length b = 2 \<and> list_all is_digit (a @ b)
                \<and> \<bar>real (read_digits (a @ b)) / 100 - \<bar>x\<bar>\<bar> \<le> 1 / 200"
    by (simp add: formatValue_def)
  from toFixed_shape[OF assms, of 1 bigToString]
  show "\<exists>a b. formatValue bigToString compactFormat (Fin x) ''change''
                    = (if x < 0 then ''-'' else []) @ a @ ''.'' @ b @ ''%''
                \<and> a \<noteq> [] \<and> length b = 1 \<and> list_all is_digit (a @ b)
                \<and> \<bar>real (read_digits (a @ b)) / 10 - \<bar>x\<bar>\<bar> \<le> 1 / 20"
    by (simp add: formatValue_def)
qed

theorem tooltip_formatValue_witness:
  "\<forall>bigToString compactFormat.
     \<bar>- 2.56 :: real\<bar> < 10 ^ 21
     \<and> formatValue bigToString compactFormat (Fin (- 2.56)) ''change'' = ''-2.6%''
     \<and> formatValue bigToString compactFormat (Fin (- 2.56)) ''price'' = ''$-2.56''
     \<and> formatValue bigToString compactFormat (Fin 3.14) ''change'' = ''3.1%''
     \<and> formatValue bigToString compactFormat (Fin 752500) ''volume'' = compactFormat (Fin 752500)"
proof (intro allI)
  fix bigToString :: "real \<Rightarrow> string" and compactFormat :: "jsnum \<Rightarrow> string"
  have h: "\<bar>- 2.56 :: real\<bar> < 10 ^ 21" by simp
  have e: "formatValue bigToString compactFormat (Fin (- 2.56)) ''change'' = ''-2.6%''"
    "formatValue bigToString compactFormat (Fin (- 2.56)) ''price'' = ''$-2.56''"
    "formatValue bigToString compactFormat (Fin 3.14) ''change'' = ''3.1%''"
    by (rule format_examples)+
  from tooltip_formatValue[OF h, of bigToString compactFormat "Fin 752500"] h e
  show "\<bar>- 2.56 :: real\<bar> < 10 ^ 21
     \<and> formatValue bigToString compactFormat (Fin (- 2.56)) ''change'' = ''-2.6%''
     \<and> formatValue bigToString compactFormat (Fin (- 2.56)) ''price'' = ''$-2.56''
     \<and> formatValue bigToString compactFormat (Fin 3.14) ''change'' = ''3.1%''
     \<and> formatValue bigToString compactFormat (Fin 752500) ''volume'' = compactFormat (Fin 752500)"
    by simp
qed

end
